theory Spec2Isabelle
  imports Main "HOL-Library.AList" "HOL-Library.Sublist"
begin

section \<open>Python values shared by both tools\<close>

text \<open>
  Python strings are modelled as HOL strings, one \<open>char\<close> per code point below 256.
  \<open>py_isspace\<close> is \<^verbatim>\<open>str.isspace\<close> on one such character, \<open>py_strip\<close> is
  \<^verbatim>\<open>str.strip()\<close> without argument.
\<close>

definition py_isspace :: "char \<Rightarrow> bool" where
  "py_isspace c = (of_char c \<in> {9, 10, 11, 12, 13, 28, 29, 30, 31, 32, 133, 160 :: nat})"

definition py_strip :: "string \<Rightarrow> string" where
  "py_strip s = rev (dropWhile py_isspace (rev (dropWhile py_isspace s)))"

text \<open>\<^verbatim>\<open>sep.join(xs)\<close>.\<close>

fun py_join :: "string \<Rightarrow> string list \<Rightarrow> string" where
  "py_join sep [] = []"
| "py_join sep [x] = x"
| "py_join sep (x # y # ys) = x @ sep @ py_join sep (y # ys)"

text \<open>
  The value of a field of a row that \<^verbatim>\<open>csv.DictReader\<close> built: a string, or \<^verbatim>\<open>None\<close>
  (the reader's \<^verbatim>\<open>restval\<close>) where the record was shorter than the header. A row is a
  Python dict: an association list in insertion order; \<open>dict_set\<close> overwrites an
  existing key in place and appends a new one, as \<^verbatim>\<open>d[k] = v\<close> does.
\<close>

datatype pyval = PyNone | PyStr string

type_synonym pydict = "(string \<times> pyval) list"

definition dict_get :: "pydict \<Rightarrow> string \<Rightarrow> pyval option" where
  "dict_get d k = map_of d k"

definition dict_get_default :: "pydict \<Rightarrow> string \<Rightarrow> pyval \<Rightarrow> pyval" where
  "dict_get_default d k dflt = (case map_of d k of None \<Rightarrow> dflt | Some v \<Rightarrow> v)"

definition dict_set :: "pydict \<Rightarrow> string \<Rightarrow> pyval \<Rightarrow> pydict" where
  "dict_set d k v = AList.update k v d"

definition dict_keys :: "pydict \<Rightarrow> string list" where
  "dict_keys d = map fst d"

text \<open>Truth value of \<^verbatim>\<open>row.get(k)\<close>: false for a missing key, \<^verbatim>\<open>None\<close> and the empty string.\<close>

fun py_truthy :: "pyval option \<Rightarrow> bool" where
  "py_truthy None = False"
| "py_truthy (Some PyNone) = False"
| "py_truthy (Some (PyStr s)) = (s \<noteq> [])"

text \<open>\<^verbatim>\<open>(row.get(k) or "")\<close>.\<close>

fun or_empty :: "pyval option \<Rightarrow> string" where
  "or_empty None = []"
| "or_empty (Some PyNone) = []"
| "or_empty (Some (PyStr s)) = s"

text \<open>How an f-string prints a value: \<^verbatim>\<open>None\<close> prints as the text None.\<close>

fun py_format :: "pyval \<Rightarrow> string" where
  "py_format PyNone = ''None''"
| "py_format (PyStr s) = s"

datatype py_error = AttributeError | TypeError | ValueError

section \<open>CSV files\<close>

text \<open>
  A CSV file is modelled by its records, each the list of its cells; the quoting and the
  encoding that \<^verbatim>\<open>csv.reader\<close> and \<^verbatim>\<open>csv.writer\<close> undo and apply are not modelled, and
  a file is taken to end with a line terminator, as every file \<^verbatim>\<open>csv.writer\<close> wrote
  does. The file system maps a path to the records of the file there, \<open>None\<close> when
  no file exists.

  \<open>DictReader\<close> is \<^verbatim>\<open>list(csv.DictReader(f))\<close>: the first record is the header,
  blank records (\<open>[]\<close>) below it are skipped, a later duplicate of a header name
  overwrites the earlier value, and the names a short record does not reach are set to
  \<^verbatim>\<open>None\<close>. Python files the surplus cells of a record longer than the header under the
  key \<^verbatim>\<open>None\<close>; the rows here have string keys only and do not carry that entry, so
  the theorems about rows that are written back assume that no record is longer than
  the header.
\<close>

type_synonym csv_file = "string list list"

type_synonym filesystem = "string \<Rightarrow> csv_file option"

definition dict_of_pairs :: "(string \<times> pyval) list \<Rightarrow> pydict" where
  "dict_of_pairs ps = foldl (\<lambda>d (k, v). dict_set d k v) [] ps"

definition DictReader_row :: "string list \<Rightarrow> string list \<Rightarrow> pydict" where
  "DictReader_row fieldnames row =
     (let d = dict_of_pairs (zip fieldnames (map PyStr row));
          lf = length fieldnames;
          lr = length row
      in if lf > lr then foldl (\<lambda>d key. dict_set d key PyNone) d (drop lr fieldnames)
         else d)"

definition DictReader :: "csv_file \<Rightarrow> pydict list" where
  "DictReader f =
     (case f of
        [] \<Rightarrow> []
      | fieldnames # records \<Rightarrow>
          map (DictReader_row fieldnames) (filter (\<lambda>r. r \<noteq> []) records))"

section \<open>The description generator: resume detection (generate.py)\<close>

text \<open>
  \<^verbatim>\<open>load_completed_skus\<close>, lines 38-49. \<^verbatim>\<open>row.get("Variant SKU", "")\<close> is \<^verbatim>\<open>None\<close>
  where a short record left the column unset, and \<^verbatim>\<open>None.strip()\<close> raises
  AttributeError; the second \<^verbatim>\<open>.strip()\<close> is only reached when the key is non-empty.
\<close>

fun scan_completed :: "pydict list \<Rightarrow> string set \<Rightarrow> py_error + string set" where
  "scan_completed [] completed = Inr completed"
| "scan_completed (row # rows) completed =
     (case dict_get_default row ''Variant SKU'' (PyStr []) of
        PyNone \<Rightarrow> Inl AttributeError
      | PyStr s \<Rightarrow>
          (let sku = py_strip s in
           if sku \<noteq> [] then
             (case dict_get_default row ''new_description'' (PyStr []) of
                PyNone \<Rightarrow> Inl AttributeError
              | PyStr d \<Rightarrow>
                  if py_strip d \<noteq> [] then scan_completed rows (insert sku completed)
                  else scan_completed rows completed)
           else scan_completed rows completed))"

definition load_completed_skus :: "filesystem \<Rightarrow> string \<Rightarrow> py_error + string set" where
  "load_completed_skus fs filepath =
     (case fs filepath of
        None \<Rightarrow> Inr {}
      | Some f \<Rightarrow> scan_completed (DictReader f) {})"


text \<open>The text of a field, empty when the row has no such column.\<close>

definition field_text :: "pydict \<Rightarrow> string \<Rightarrow> string" where
  "field_text row k = or_empty (dict_get row k)"


section \<open>The description generator: prompt builder (prompt_template.py)\<close>

text \<open>\<^verbatim>\<open>str(n)\<close> for a non-negative integer.\<close>

fun py_str_nat :: "nat \<Rightarrow> string" where
  "py_str_nat n =
     (if n < 10 then [''0123456789'' ! n]
      else py_str_nat (n div 10) @ [''0123456789'' ! (n mod 10)])"

declare py_str_nat.simps [simp del]

text \<open>
  \<^verbatim>\<open>build_user_prompt\<close>, lines 20-55. \<open>labeled\<close> is one
  \<^verbatim>\<open>if row.get(key): parts.append(f"label{row[key]}")\<close>; \<open>mini_values\<close> is the loop
  over \<^verbatim>\<open>range(1, 5)\<close> that gathers the mini descriptions.
\<close>

definition newline :: string where
  "newline = [CHR 0x0A]"

definition labeled :: "pydict \<Rightarrow> string \<Rightarrow> string \<Rightarrow> string list \<Rightarrow> string list" where
  "labeled row key label parts =
     (if py_truthy (dict_get row key)
      then parts @ [label @ or_empty (dict_get row key)]
      else parts)"

fun mini_values :: "pydict \<Rightarrow> nat list \<Rightarrow> string list \<Rightarrow> string list" where
  "mini_values row [] minis = minis"
| "mini_values row (i # is) minis =
     (let key = ''description_mini_0'' @ py_str_nat i in
      if py_truthy (dict_get row key)
      then mini_values row is (minis @ [or_empty (dict_get row key)])
      else mini_values row is minis)"

definition instruction_suffix :: string where
  "instruction_suffix =
     newline @ ''Write a product description following the rules. Return only the description text, nothing else.''"

definition build_user_prompt :: "pydict \<Rightarrow> string" where
  "build_user_prompt row =
     (let parts = [''Product title: '' @ py_format (dict_get_default row ''Title'' (PyStr []))];
          parts = labeled row ''Vendor'' ''Brand/Vendor: '' parts;
          parts = labeled row ''description'' ''Current description: '' parts;
          parts = labeled row ''units_01'' ''Units/sizing: '' parts;
          parts = labeled row ''certifications'' ''Certifications: '' parts;
          parts = labeled row ''nutritional_claims'' ''Nutritional claims: '' parts;
          parts = labeled row ''occasion'' ''Occasion: '' parts;
          minis = mini_values row [1, 2, 3, 4] [];
          parts = (if minis \<noteq> [] then parts @ [''Additional details: '' @ py_join '' | '' minis]
                   else parts);
          parts = parts @ [instruction_suffix]
      in py_join newline parts)"

text \<open>
  The prompt as section 4.1 of the specification words it, for comparison with
  \<open>build_user_prompt\<close>: the labeled fields in their fixed order, each emitted only when
  its value is non-empty; the mini descriptions joined by the separator when there are
  any; the instruction suffix. \<open>claimed_prompt\<close> treats the title like every other
  field; \<open>prompt_with_title\<close> emits the title line always.
\<close>

definition labeled_fields :: "(string \<times> string) list" where
  "labeled_fields =
     [(''Vendor'', ''Brand/Vendor: ''),
      (''description'', ''Current description: ''),
      (''units_01'', ''Units/sizing: ''),
      (''certifications'', ''Certifications: ''),
      (''nutritional_claims'', ''Nutritional claims: ''),
      (''occasion'', ''Occasion: '')]"

definition mini_keys :: "string list" where
  "mini_keys =
     [''description_mini_01'', ''description_mini_02'', ''description_mini_03'', ''description_mini_04'']"

definition present_lines :: "pydict \<Rightarrow> (string \<times> string) list \<Rightarrow> string list" where
  "present_lines row fields =
     map (\<lambda>(key, label). label @ field_text row key)
         (filter (\<lambda>(key, label). field_text row key \<noteq> []) fields)"

definition mini_line :: "pydict \<Rightarrow> string list" where
  "mini_line row =
     (let minis = filter (\<lambda>v. v \<noteq> []) (map (field_text row) mini_keys) in
      if minis = [] then [] else [''Additional details: '' @ py_join '' | '' minis])"

definition claimed_prompt :: "pydict \<Rightarrow> string" where
  "claimed_prompt row =
     py_join newline
       (present_lines row ((''Title'', ''Product title: '') # labeled_fields)
        @ mini_line row @ [instruction_suffix])"

definition prompt_with_title :: "pydict \<Rightarrow> string" where
  "prompt_with_title row =
     py_join newline
       ([''Product title: '' @ py_format (dict_get_default row ''Title'' (PyStr []))]
        @ present_lines row labeled_fields @ mini_line row @ [instruction_suffix])"

text \<open>The fields of a record that the prompt reads.\<close>

definition prompt_fields :: "string list" where
  "prompt_fields = ''Title'' # map fst labeled_fields @ mini_keys"

section \<open>The description generator: remote call and output file (generate.py)\<close>

text \<open>
  The remote model is a parameter: \<open>call w content\<close> is what
  \<^verbatim>\<open>client.messages.create\<close> does in the state \<open>w\<close> of the outside world when it is sent
  the user content \<open>content\<close> (the model name, the token limit and the system prompt
  are the same constants in every call). It answers with a message, given by the texts
  of its content blocks, or raises; an exception carries its \<^verbatim>\<open>str(e)\<close>.
  \<^verbatim>\<open>AuthenticationError\<close> is a subclass of \<^verbatim>\<open>APIError\<close>.
\<close>

datatype content_part = ImagePart string | TextPart string

datatype api_reply =
    Reply "string list"
  | RaiseAuthenticationError string
  | RaiseAPIError string
  | RaiseException string

datatype raised = APIError string | OtherException string

fun raised_message :: "raised \<Rightarrow> string" where
  "raised_message (APIError m) = m"
| "raised_message (OtherException m) = m"

text \<open>
  \<^verbatim>\<open>generate_description\<close>, lines 64-91. \<^verbatim>\<open>message.content[0]\<close> raises IndexError on
  a message without content blocks.
\<close>

definition generate_description ::
  "('w \<Rightarrow> content_part list \<Rightarrow> api_reply \<times> 'w) \<Rightarrow> 'w \<Rightarrow> pydict \<Rightarrow> (raised + string) \<times> 'w" where
  "generate_description call w row =
     (let user_text = build_user_prompt row;
          image_url = py_strip (or_empty (dict_get row ''Image Src''));
          content = (if image_url \<noteq> [] then [ImagePart image_url] else []);
          content = content @ [TextPart user_text];
          (reply, w') = call w content
      in (case reply of
            Reply [] \<Rightarrow> (Inl (OtherException ''list index out of range''), w')
          | Reply (text # _) \<Rightarrow> (Inr (py_strip text), w')
          | RaiseAuthenticationError m \<Rightarrow> (Inl (APIError m), w')
          | RaiseAPIError m \<Rightarrow> (Inl (APIError m), w')
          | RaiseException m \<Rightarrow> (Inl (OtherException m), w')))"

text \<open>
  \<^verbatim>\<open>csv.DictWriter\<close>: \<open>dict_to_list\<close> is the writer's \<^verbatim>\<open>_dict_to_list\<close> (a key outside
  the field names raises ValueError; a missing field is written as the empty string),
  \<open>csv_cell\<close> is how \<^verbatim>\<open>csv.writer\<close> writes a value (\<^verbatim>\<open>None\<close> as the empty string).
\<close>

fun csv_cell :: "pyval \<Rightarrow> string" where
  "csv_cell PyNone = []"
| "csv_cell (PyStr s) = s"

definition row_record :: "string list \<Rightarrow> pydict \<Rightarrow> string list" where
  "row_record fieldnames rowdict =
     map (\<lambda>key. csv_cell (dict_get_default rowdict key (PyStr []))) fieldnames"

definition dict_to_list :: "string list \<Rightarrow> pydict \<Rightarrow> py_error + string list" where
  "dict_to_list fieldnames rowdict =
     (if \<not> set (dict_keys rowdict) \<subseteq> set fieldnames then Inl ValueError
      else Inr (row_record fieldnames rowdict))"

text \<open>\<^verbatim>\<open>init_output_csv\<close>, lines 94-99.\<close>

definition init_output_csv :: "filesystem \<Rightarrow> string \<Rightarrow> string list \<Rightarrow> filesystem" where
  "init_output_csv fs filepath fieldnames =
     (if fs filepath = None then fs(filepath \<mapsto> [fieldnames]) else fs)"

text \<open>
  \<^verbatim>\<open>append_rows\<close>, lines 102-107. Mode \<^verbatim>\<open>"a"\<close> creates a missing file. When a row
  raises, the rows written before it stay in the file and the exception leaves the
  function.
\<close>

fun write_rows :: "string list \<Rightarrow> pydict list \<Rightarrow> csv_file \<Rightarrow> py_error option \<times> csv_file" where
  "write_rows fieldnames [] f = (None, f)"
| "write_rows fieldnames (row # rows) f =
     (case dict_to_list fieldnames row of
        Inl e \<Rightarrow> (Some e, f)
      | Inr record \<Rightarrow> write_rows fieldnames rows (f @ [record]))"

definition append_rows ::
  "filesystem \<Rightarrow> string \<Rightarrow> string list \<Rightarrow> pydict list \<Rightarrow> py_error option \<times> filesystem" where
  "append_rows fs filepath fieldnames rows =
     (let f = (case fs filepath of None \<Rightarrow> [] | Some f \<Rightarrow> f);
          (e, f') = write_rows fieldnames rows f
      in (e, fs(filepath \<mapsto> f')))"

section \<open>The description generator: the run (generate.py, main)\<close>

definition SAVE_EVERY_N :: nat where
  "SAVE_EVERY_N = 10"

text \<open>
  The command line after parsing, with the two paths resolved (lines 118-119).
  \<^verbatim>\<open>--limit\<close> is an optional integer.
\<close>

record args =
  input_path :: string
  output_path :: string
  limit :: "int option"
  resume :: bool

text \<open>
  What a run has done so far: the files, the state of the outside world behind the
  remote model, the buffer and the three counters of \<^verbatim>\<open>main\<close>, and two counters of the
  model's own: the remote calls made and the \<^verbatim>\<open>time.sleep\<close> calls made.
\<close>

record 'w run_state =
  files :: filesystem
  remote :: 'w
  buffer :: "pydict list"
  processed :: nat
  skipped :: nat
  errors :: nat
  requests :: nat
  sleeps :: nat

text \<open>The identity key of an input row, line 178.\<close>

definition row_sku :: "pydict \<Rightarrow> string" where
  "row_sku row = py_strip (or_empty (dict_get row ''Variant SKU''))"

text \<open>The two assignments to the row in the branches of the try statement, lines 187-202.\<close>

fun annotate :: "pydict \<Rightarrow> raised + string \<Rightarrow> pydict" where
  "annotate row (Inr description) =
     dict_set (dict_set row ''new_description'' (PyStr description))
       ''generation_status'' (PyStr ''success'')"
| "annotate row (Inl e) =
     dict_set (dict_set row ''new_description'' (PyStr []))
       ''generation_status'' (PyStr (''error: '' @ raised_message e))"

text \<open>
  One iteration of the loop, lines 177-213: the skip test, the try statement with
  \<^verbatim>\<open>buffer.append(row)\<close> (\<open>record_result\<close>), the checkpoint and the sleep. The
  progress messages are not modelled, except that \<^verbatim>\<open>title[:60]\<close> raises TypeError,
  outside the try statement, when the Title of a short record is \<^verbatim>\<open>None\<close>. The result
  is the exception that left the iteration, if any, and the state.
\<close>

definition checkpoint ::
  "string \<Rightarrow> string list \<Rightarrow> 'w run_state \<Rightarrow> py_error option \<times> 'w run_state" where
  "checkpoint out fieldnames st =
     (if length (buffer st) \<ge> SAVE_EVERY_N then
        (case append_rows (files st) out fieldnames (buffer st) of
           (Some e, fs') \<Rightarrow> (Some e, st\<lparr>files := fs'\<rparr>)
         | (None, fs') \<Rightarrow> (None, st\<lparr>files := fs', buffer := []\<rparr>))
      else (None, st))"

definition record_result ::
  "pydict \<Rightarrow> raised + string \<Rightarrow> 'w \<Rightarrow> 'w run_state \<Rightarrow> 'w run_state" where
  "record_result row result w' st =
     (let st = st\<lparr>remote := w', requests := requests st + 1\<rparr>;
          st = (case result of
                  Inr description \<Rightarrow> st\<lparr>processed := processed st + 1\<rparr>
                | Inl e \<Rightarrow> st\<lparr>errors := errors st + 1\<rparr>)
      in st\<lparr>buffer := buffer st @ [annotate row result]\<rparr>)"

definition loop_body ::
  "('w \<Rightarrow> content_part list \<Rightarrow> api_reply \<times> 'w) \<Rightarrow> string \<Rightarrow> string list \<Rightarrow> string set
   \<Rightarrow> pydict \<Rightarrow> 'w run_state \<Rightarrow> py_error option \<times> 'w run_state" where
  "loop_body call out fieldnames completed_skus row st =
     (let sku = row_sku row in
      if sku \<in> completed_skus then (None, st\<lparr>skipped := skipped st + 1\<rparr>)
      else
        (case dict_get_default row ''Title'' (PyStr ''Unknown'') of
           PyNone \<Rightarrow> (Some TypeError, st)
         | PyStr title \<Rightarrow>
             (let (result, w') = generate_description call (remote st) row;
                  st = record_result row result w' st
              in (case checkpoint out fieldnames st of
                    (Some e, st) \<Rightarrow> (Some e, st)
                  | (None, st) \<Rightarrow> (None, st\<lparr>sleeps := sleeps st + 1\<rparr>)))))"

fun run_loop ::
  "('w \<Rightarrow> content_part list \<Rightarrow> api_reply \<times> 'w) \<Rightarrow> string \<Rightarrow> string list \<Rightarrow> string set
   \<Rightarrow> pydict list \<Rightarrow> 'w run_state \<Rightarrow> py_error option \<times> 'w run_state" where
  "run_loop call out fieldnames completed_skus [] st = (None, st)"
| "run_loop call out fieldnames completed_skus (row # rows) st =
     (case loop_body call out fieldnames completed_skus row st of
        (Some e, st') \<Rightarrow> (Some e, st')
      | (None, st') \<Rightarrow> run_loop call out fieldnames completed_skus rows st')"

text \<open>The flush after the loop, lines 215-217.\<close>

definition flush_buffer ::
  "string \<Rightarrow> string list \<Rightarrow> 'w run_state \<Rightarrow> py_error option \<times> 'w run_state" where
  "flush_buffer out fieldnames st =
     (if buffer st \<noteq> [] then
        (case append_rows (files st) out fieldnames (buffer st) of
           (e, fs') \<Rightarrow> (e, st\<lparr>files := fs'\<rparr>))
      else (None, st))"

text \<open>\<^verbatim>\<open>rows[:n]\<close> for an integer \<open>n\<close>.\<close>

definition py_slice_to :: "'a list \<Rightarrow> int \<Rightarrow> 'a list" where
  "py_slice_to xs n =
     (if n \<ge> 0 then take (nat n) xs else take (length xs - nat (- n)) xs)"

text \<open>Lines 148-150: \<^verbatim>\<open>if args.limit: rows = rows[: args.limit]\<close>.\<close>

definition apply_limit :: "int option \<Rightarrow> 'a list \<Rightarrow> 'a list" where
  "apply_limit lim rows =
     (case lim of
        None \<Rightarrow> rows
      | Some n \<Rightarrow> if n \<noteq> 0 then py_slice_to rows n else rows)"

text \<open>
  \<^verbatim>\<open>load_input_csv\<close>, lines 31-35, on the records of the input file (\<^verbatim>\<open>main\<close> tests that
  the file exists before it calls the function).
\<close>

definition load_input_csv :: "csv_file \<Rightarrow> pydict list" where
  "load_input_csv f = DictReader f"

text \<open>The output field names, lines 152-157.\<close>

definition output_fieldnames :: "pydict list \<Rightarrow> string list" where
  "output_fieldnames rows =
     (let fieldnames = (case rows of [] \<Rightarrow> [] | row # _ \<Rightarrow> dict_keys row);
          fieldnames = (if ''new_description'' \<notin> set fieldnames
                        then fieldnames @ [''new_description''] else fieldnames);
          fieldnames = (if ''generation_status'' \<notin> set fieldnames
                        then fieldnames @ [''generation_status''] else fieldnames)
      in fieldnames)"

text \<open>
  \<^verbatim>\<open>main\<close>, lines 110-223. \<open>api_key\<close> is the key after the look into the environment
  and the .env file (lines 122-132); file operations other than the existence tests the
  code makes are taken to succeed. The run ends normally, by \<^verbatim>\<open>sys.exit(1)\<close>, or by an
  exception that nothing catches.
\<close>

datatype exit_status = Finished | SysExit nat | Uncaught py_error

definition initial_state :: "filesystem \<Rightarrow> 'w \<Rightarrow> 'w run_state" where
  "initial_state fs w =
     \<lparr>files = fs, remote = w, buffer = [], processed = 0, skipped = 0, errors = 0,
      requests = 0, sleeps = 0\<rparr>"

definition main ::
  "('w \<Rightarrow> content_part list \<Rightarrow> api_reply \<times> 'w) \<Rightarrow> string \<Rightarrow> args \<Rightarrow> filesystem \<Rightarrow> 'w
   \<Rightarrow> exit_status \<times> 'w run_state" where
  "main call api_key a fs w =
     (if api_key = [] then (SysExit 1, initial_state fs w)
      else
        (case fs (input_path a) of
           None \<Rightarrow> (SysExit 1, initial_state fs w)
         | Some f \<Rightarrow>
             (let rows = load_input_csv f;
                  rows = apply_limit (limit a) rows;
                  fieldnames = output_fieldnames rows;
                  start = (if resume a
                           then (case load_completed_skus fs (output_path a) of
                                   Inl e \<Rightarrow> Inl e
                                 | Inr completed_skus \<Rightarrow> Inr (completed_skus, fs))
                           else Inr ({}, init_output_csv fs (output_path a) fieldnames))
              in (case start of
                    Inl e \<Rightarrow> (Uncaught e, initial_state fs w)
                  | Inr (completed_skus, fs') \<Rightarrow>
                      (case run_loop call (output_path a) fieldnames completed_skus rows
                              (initial_state fs' w) of
                         (Some e, st) \<Rightarrow> (Uncaught e, st)
                       | (None, st) \<Rightarrow>
                           (case flush_buffer (output_path a) fieldnames st of
                              (Some e, st') \<Rightarrow> (Uncaught e, st')
                            | (None, st') \<Rightarrow> (Finished, st')))))))"

section \<open>The description generator: what a run writes\<close>

text \<open>
  The loop without its buffer, for comparison with \<open>run_loop\<close>: the annotated rows, one
  for every row that is not skipped, in input order, and the state of the outside world
  after the calls made for them.
\<close>

fun generated_rows ::
  "('w \<Rightarrow> content_part list \<Rightarrow> api_reply \<times> 'w) \<Rightarrow> string set \<Rightarrow> 'w \<Rightarrow> pydict list \<Rightarrow> pydict list" where
  "generated_rows call completed_skus w [] = []"
| "generated_rows call completed_skus w (row # rows) =
     (if row_sku row \<in> completed_skus then generated_rows call completed_skus w rows
      else annotate row (fst (generate_description call w row))
           # generated_rows call completed_skus (snd (generate_description call w row)) rows)"

fun remote_after ::
  "('w \<Rightarrow> content_part list \<Rightarrow> api_reply \<times> 'w) \<Rightarrow> string set \<Rightarrow> 'w \<Rightarrow> pydict list \<Rightarrow> 'w" where
  "remote_after call completed_skus w [] = w"
| "remote_after call completed_skus w (row # rows) =
     (if row_sku row \<in> completed_skus then remote_after call completed_skus w rows
      else remote_after call completed_skus (snd (generate_description call w row)) rows)"





text \<open>The records of the file at a path, none for a missing file.\<close>

definition file_records :: "filesystem \<Rightarrow> string \<Rightarrow> csv_file" where
  "file_records fs p = (case fs p of None \<Rightarrow> [] | Some f \<Rightarrow> f)"

text \<open>
  The conditions under which an iteration raises nothing: the field names hold the two
  synthetic fields, the row has no key outside the field names, and its Title is not
  \<^verbatim>\<open>None\<close>; and what holds of the buffer between iterations.
\<close>

definition fields_ok :: "string list \<Rightarrow> bool" where
  "fields_ok fieldnames =
     (''new_description'' \<in> set fieldnames \<and> ''generation_status'' \<in> set fieldnames)"

definition row_ok :: "string list \<Rightarrow> pydict \<Rightarrow> bool" where
  "row_ok fieldnames row =
     (set (dict_keys row) \<subseteq> set fieldnames \<and> dict_get row ''Title'' \<noteq> Some PyNone)"

definition buffer_ok :: "string list \<Rightarrow> 'w run_state \<Rightarrow> bool" where
  "buffer_ok fieldnames st =
     (length (buffer st) < SAVE_EVERY_N
      \<and> list_all (\<lambda>row. set (dict_keys row) \<subseteq> set fieldnames) (buffer st))"

text \<open>
  How a state \<open>st'\<close> relates to an earlier state \<open>st\<close> when the iterations between them
  generated the rows \<open>gen\<close> and skipped \<open>k\<close> rows.
\<close>

definition progress ::
  "string \<Rightarrow> string list \<Rightarrow> pydict list \<Rightarrow> nat \<Rightarrow> 'w run_state \<Rightarrow> 'w run_state \<Rightarrow> bool" where
  "progress out fieldnames gen k st st' =
     (file_records (files st') out @ map (row_record fieldnames) (buffer st')
        = file_records (files st) out @ map (row_record fieldnames) (buffer st)
          @ map (row_record fieldnames) gen
      \<and> length (buffer st') mod SAVE_EVERY_N
          = (length (buffer st) + length gen) mod SAVE_EVERY_N
      \<and> (\<forall>p. p \<noteq> out \<longrightarrow> files st' p = files st p)
      \<and> (gen = [] \<longrightarrow> files st' = files st \<and> buffer st' = buffer st)
      \<and> (files st out \<noteq> None \<longrightarrow> files st' out \<noteq> None)
      \<and> requests st' = requests st + length gen
      \<and> sleeps st' = sleeps st + length gen
      \<and> skipped st' = skipped st + k
      \<and> processed st' + errors st' = processed st + errors st + length gen)"

text \<open>
  The cell of a written record under a column, and the two forms of the status that the
  try statement assigns.
\<close>

definition record_field :: "string list \<Rightarrow> string list \<Rightarrow> string \<Rightarrow> string option" where
  "record_field fieldnames record k = map_of (zip fieldnames record) k"

definition status_written :: "string option \<Rightarrow> bool" where
  "status_written c =
     (case c of None \<Rightarrow> False | Some s \<Rightarrow> s = ''success'' \<or> prefix ''error: '' s)"

section \<open>The handle generator: POST /generate (app.py)\<close>




text \<open>
  The value \<^verbatim>\<open>json.loads\<close> returns. The parser itself is a parameter \<open>loads\<close> of the
  handler, \<open>None\<close> where \<^verbatim>\<open>json.loads\<close> raises JSONDecodeError; a float is kept as its
  text.
\<close>

datatype json =
    JNull
  | JBool bool
  | JInt int
  | JFloat string
  | JString string
  | JArray "json list"
  | JObject "(string \<times> json) list"









section \<open>The handle generator: POST /upload (app.py)\<close>





















section \<open>Sample data\<close>


text \<open>
  A remote model that answers every other call and raises on the others (its state
  counts the calls), one that always raises, and twelve input rows with the keys S0 to
  S11.
\<close>

definition sample_remote :: "nat \<Rightarrow> content_part list \<Rightarrow> api_reply \<times> nat" where
  "sample_remote w content =
     (if even w then Reply ['' Chewy mints. ''] else RaiseAPIError ''overloaded'', w + 1)"

definition sample_fieldnames :: "string list" where
  "sample_fieldnames = [''Variant SKU'', ''Title'', ''new_description'', ''generation_status'']"

definition sample_rows :: "pydict list" where
  "sample_rows =
     map (\<lambda>i. [(''Variant SKU'', PyStr (''S'' @ py_str_nat i)), (''Title'', PyStr ''Mints'')])
         [0..<12]"

definition sample_start :: "nat run_state" where
  "sample_start = initial_state (\<lambda>p. if p = ''out.csv'' then Some [sample_fieldnames] else None) 0"

definition sample_failing :: "unit \<Rightarrow> content_part list \<Rightarrow> api_reply \<times> unit" where
  "sample_failing w content = (RaiseAPIError ''overloaded'', w)"

text \<open>
  A remote model that always answers, an input file with one record, the command line
  of a fresh run on it, and three runs: a fresh run against the model that always
  raises, a resumed run after it, and a resumed run without an output file.
\<close>

definition sample_ok :: "unit \<Rightarrow> content_part list \<Rightarrow> api_reply \<times> unit" where
  "sample_ok w content = (Reply ['' Chewy mints. ''], w)"

definition sample_input :: filesystem where
  "sample_input =
     (\<lambda>p. if p = ''in.csv'' then Some [[''Variant SKU'', ''Title''], [''A1'', ''Mints'']] else None)"

definition sample_args :: args where
  "sample_args = \<lparr>input_path = ''in.csv'', output_path = ''out.csv'', limit = None, resume = False\<rparr>"



definition resumed_without_output :: "exit_status \<times> unit run_state" where
  "resumed_without_output =
     main sample_ok ''key'' (sample_args\<lparr>resume := True\<rparr>) sample_input ()"










section \<open>Facts about dicts and the CSV reader\<close>

lemma map_of_dict_set: "map_of (dict_set d k v) = (map_of d)(k \<mapsto> v)"
  by (simp add: dict_set_def update_conv')

lemma dict_get_set: "dict_get (dict_set d k v) k' = (if k' = k then Some v else dict_get d k')"
  by (simp add: dict_get_def map_of_dict_set)



section \<open>Facts about the prompt builder\<close>

lemma truthy_field: "py_truthy (dict_get row k) \<longleftrightarrow> field_text row k \<noteq> []"
  by (cases "dict_get row k" rule: py_truthy.cases) (simp_all add: field_text_def)

lemma labeled_present:
  "labeled row k label parts = parts @ present_lines row [(k, label)]"
  by (simp add: labeled_def present_lines_def truthy_field) (simp add: field_text_def)

lemma mini_values_general:
  "mini_values row ns acc =
     acc @ filter (\<lambda>v. v \<noteq> []) (map (\<lambda>i. field_text row (''description_mini_0'' @ py_str_nat i)) ns)"
  by (induction ns arbitrary: acc) (simp_all add: Let_def truthy_field, simp add: field_text_def)

lemma mini_key_texts:
  "map (\<lambda>i. ''description_mini_0'' @ py_str_nat i) [1, 2, 3, 4] = mini_keys"
  by (simp add: py_str_nat.simps mini_keys_def)

lemma mini_values_filter:
  "mini_values row [1, 2, 3, 4] [] = filter (\<lambda>v. v \<noteq> []) (map (field_text row) mini_keys)"
proof -
  have "map (\<lambda>i. field_text row (''description_mini_0'' @ py_str_nat i)) [1, 2, 3, 4]
        = map (field_text row) (map (\<lambda>i. ''description_mini_0'' @ py_str_nat i) [1, 2, 3, 4])"
    by (simp only: map_map comp_def)
  then show ?thesis
    by (simp only: mini_values_general mini_key_texts append_Nil)
qed

lemma present_lines_append:
  "present_lines row (xs @ ys) = present_lines row xs @ present_lines row ys"
  by (simp add: present_lines_def)

lemma build_user_prompt_eq: "build_user_prompt row = prompt_with_title row"
proof -
  have lf: "labeled_fields =
      [(''Vendor'', ''Brand/Vendor: '')] @ [(''description'', ''Current description: '')]
      @ [(''units_01'', ''Units/sizing: '')] @ [(''certifications'', ''Certifications: '')]
      @ [(''nutritional_claims'', ''Nutritional claims: '')] @ [(''occasion'', ''Occasion: '')]"
    by (simp add: labeled_fields_def)
  show ?thesis
    unfolding build_user_prompt_def prompt_with_title_def Let_def labeled_present
      mini_values_filter mini_line_def lf present_lines_append
    by simp
qed

lemma prompt_with_title_cong:
  assumes "\<forall>k \<in> set prompt_fields. dict_get row' k = dict_get row k"
  shows "prompt_with_title row' = prompt_with_title row"
proof -
  have t: "dict_get_default row' ''Title'' (PyStr []) = dict_get_default row ''Title'' (PyStr [])"
    using assms by (simp add: prompt_fields_def dict_get_default_def dict_get_def)
  have f: "\<And>k. k \<in> set (map fst labeled_fields) \<Longrightarrow> field_text row' k = field_text row k"
    using assms by (simp add: prompt_fields_def field_text_def)
  have p: "present_lines row' labeled_fields = present_lines row labeled_fields"
    using f by (simp add: present_lines_def labeled_fields_def)
  have m: "map (field_text row') mini_keys = map (field_text row) mini_keys"
    using assms by (simp add: prompt_fields_def field_text_def)
  show ?thesis
    by (simp add: prompt_with_title_def t p m mini_line_def)
qed

section \<open>Facts about the loop\<close>

lemma SAVE_EVERY_N_pos: "0 < SAVE_EVERY_N"
  by (simp add: SAVE_EVERY_N_def)

lemma write_rows_ok:
  assumes "list_all (\<lambda>row. set (dict_keys row) \<subseteq> set fieldnames) rows"
  shows "write_rows fieldnames rows f = (None, f @ map (row_record fieldnames) rows)"
  using assms by (induction rows arbitrary: f) (simp_all add: dict_to_list_def)

lemma append_rows_ok:
  assumes "list_all (\<lambda>row. set (dict_keys row) \<subseteq> set fieldnames) rows"
  shows "append_rows fs p fieldnames rows
         = (None, fs(p \<mapsto> file_records fs p @ map (row_record fieldnames) rows))"
  by (simp add: append_rows_def write_rows_ok[OF assms] file_records_def)

lemma dict_keys_set: "set (dict_keys (dict_set d k v)) = insert k (set (dict_keys d))"
  using dom_update[of k v d] by (simp add: dict_keys_def dict_set_def)

lemma annotate_keys:
  "set (dict_keys (annotate row result))
   = set (dict_keys row) \<union> {''new_description'', ''generation_status''}"
  by (cases result) (auto simp: dict_keys_set)

lemma annotate_writable:
  assumes "fields_ok fieldnames" "set (dict_keys row) \<subseteq> set fieldnames"
  shows "set (dict_keys (annotate row result)) \<subseteq> set fieldnames"
  using assms by (auto simp: annotate_keys fields_ok_def)

lemma progress_refl: "progress out fieldnames [] 0 st st"
  by (simp add: progress_def)

lemma progress_trans:
  assumes "progress out fieldnames gen1 k1 st st1" "progress out fieldnames gen2 k2 st1 st2"
  shows "progress out fieldnames (gen1 @ gen2) (k1 + k2) st st2"
proof -
  have "length (buffer st2) mod SAVE_EVERY_N
        = (length (buffer st1) mod SAVE_EVERY_N + length gen2) mod SAVE_EVERY_N"
    using assms(2) by (simp add: progress_def mod_add_left_eq)
  also have "\<dots> = ((length (buffer st) + length gen1) mod SAVE_EVERY_N + length gen2) mod SAVE_EVERY_N"
    using assms(1) by (simp add: progress_def)
  finally have len: "length (buffer st2) mod SAVE_EVERY_N
        = (length (buffer st) + length (gen1 @ gen2)) mod SAVE_EVERY_N"
    by (simp add: mod_add_left_eq add.assoc)
  show ?thesis
    using assms len unfolding progress_def by auto
qed

lemma loop_body_skip:
  assumes "row_sku row \<in> completed"
  shows "loop_body call out fieldnames completed row st = (None, st\<lparr>skipped := skipped st + 1\<rparr>)"
  using assms by (simp add: loop_body_def)

lemma progress_skip: "progress out fieldnames [] 1 st (st\<lparr>skipped := skipped st + 1\<rparr>)"
  by (simp add: progress_def)

lemma buffer_ok_skip: "buffer_ok fieldnames (st\<lparr>skipped := k\<rparr>) = buffer_ok fieldnames st"
  by (simp add: buffer_ok_def)

lemma record_result_fields:
  "buffer (record_result row result w' st) = buffer st @ [annotate row result]"
  "files (record_result row result w' st) = files st"
  "remote (record_result row result w' st) = w'"
  "requests (record_result row result w' st) = requests st + 1"
  "sleeps (record_result row result w' st) = sleeps st"
  "skipped (record_result row result w' st) = skipped st"
  "processed (record_result row result w' st) + errors (record_result row result w' st)
     = processed st + errors st + 1"
  by (cases result; simp add: record_result_def)+

lemma checkpoint_small:
  assumes "length (buffer st) < SAVE_EVERY_N"
  shows "checkpoint out fieldnames st = (None, st)"
  using assms by (simp add: checkpoint_def)

lemma checkpoint_full:
  assumes "SAVE_EVERY_N \<le> length (buffer st)"
    and "list_all (\<lambda>row. set (dict_keys row) \<subseteq> set fieldnames) (buffer st)"
  shows "checkpoint out fieldnames st
         = (None, st\<lparr>files := (files st)(out \<mapsto> file_records (files st) out
                                     @ map (row_record fieldnames) (buffer st)),
                      buffer := []\<rparr>)"
  using assms(1) by (simp add: checkpoint_def append_rows_ok[OF assms(2)])

lemma loop_body_generate:
  assumes f: "fields_ok fieldnames" and r: "row_ok fieldnames row" and b: "buffer_ok fieldnames st"
    and ns: "row_sku row \<notin> completed"
  shows "\<exists>st'. loop_body call out fieldnames completed row st = (None, st')
          \<and> progress out fieldnames [annotate row (fst (generate_description call (remote st) row))] 0 st st'
          \<and> buffer_ok fieldnames st'
          \<and> remote st' = snd (generate_description call (remote st) row)"
proof -
  obtain result w' where g: "generate_description call (remote st) row = (result, w')"
    by (cases "generate_description call (remote st) row")
  obtain title where t: "dict_get_default row ''Title'' (PyStr ''Unknown'') = PyStr title"
    using r by (cases "map_of row ''Title''"; cases "the (map_of row ''Title'')")
      (auto simp: row_ok_def dict_get_def dict_get_default_def)
  define st1 where "st1 = record_result row result w' st"
  have body: "loop_body call out fieldnames completed row st
      = (case checkpoint out fieldnames st1 of
           (Some e, s) \<Rightarrow> (Some e, s)
         | (None, s) \<Rightarrow> (None, s\<lparr>sleeps := sleeps s + 1\<rparr>))"
    using ns g t by (simp add: loop_body_def st1_def)
  have buf1: "buffer st1 = buffer st @ [annotate row result]"
    by (simp add: st1_def record_result_fields)
  have w: "list_all (\<lambda>row. set (dict_keys row) \<subseteq> set fieldnames) (buffer st1)"
    using b r annotate_writable[OF f] by (simp add: buf1 buffer_ok_def row_ok_def)
  show ?thesis
  proof (cases "SAVE_EVERY_N \<le> length (buffer st1)")
    case True
    then have full: "Suc (length (buffer st)) = SAVE_EVERY_N"
      using b by (simp add: buffer_ok_def buf1)
    let ?st' = "st1\<lparr>files := (files st1)(out \<mapsto> file_records (files st1) out
                                     @ map (row_record fieldnames) (buffer st1)),
                     buffer := [], sleeps := sleeps st1 + 1\<rparr>"
    have 1: "loop_body call out fieldnames completed row st = (None, ?st')"
      by (simp add: body checkpoint_full[OF True w])
    have 2: "progress out fieldnames [annotate row result] 0 st ?st'"
      using full record_result_fields(7)[of row result w' st]
      by (simp add: progress_def st1_def record_result_fields file_records_def)
    have 3: "buffer_ok fieldnames ?st'"
      using SAVE_EVERY_N_pos by (simp add: buffer_ok_def)
    have 4: "remote ?st' = w'"
      by (simp add: st1_def record_result_fields)
    show ?thesis using 1 2 3 4 g by simp
  next
    case False
    let ?st' = "st1\<lparr>sleeps := sleeps st1 + 1\<rparr>"
    have small: "length (buffer st1) < SAVE_EVERY_N" using False by simp
    have 1: "loop_body call out fieldnames completed row st = (None, ?st')"
      by (simp add: body checkpoint_small[OF small])
    have 2: "progress out fieldnames [annotate row result] 0 st ?st'"
      using record_result_fields(7)[of row result w' st]
      by (simp add: progress_def st1_def record_result_fields)
    have 3: "buffer_ok fieldnames ?st'"
      using small w by (simp add: buffer_ok_def)
    have 4: "remote ?st' = w'"
      by (simp add: st1_def record_result_fields)
    show ?thesis using 1 2 3 4 g by simp
  qed
qed

lemma run_loop_progress:
  assumes f: "fields_ok fieldnames"
    and r: "list_all (row_ok fieldnames) rows"
    and b: "buffer_ok fieldnames st"
  shows "\<exists>st'. run_loop call out fieldnames completed rows st = (None, st')
          \<and> progress out fieldnames (generated_rows call completed (remote st) rows)
               (length (filter (\<lambda>row. row_sku row \<in> completed) rows)) st st'
          \<and> buffer_ok fieldnames st'
          \<and> remote st' = remote_after call completed (remote st) rows"
  using r b
proof (induction rows arbitrary: st)
  case Nil
  then show ?case by (simp add: progress_refl)
next
  case (Cons row rows)
  have rok: "row_ok fieldnames row" and rest: "list_all (row_ok fieldnames) rows"
    using Cons.prems(1) by simp_all
  show ?case
  proof (cases "row_sku row \<in> completed")
    case True
    let ?st1 = "st\<lparr>skipped := skipped st + 1\<rparr>"
    have b1: "buffer_ok fieldnames ?st1"
      using Cons.prems(2) by (simp add: buffer_ok_skip)
    from Cons.IH[OF rest b1] obtain st' where
      run: "run_loop call out fieldnames completed rows ?st1 = (None, st')"
      and pr: "progress out fieldnames (generated_rows call completed (remote ?st1) rows)
               (length (filter (\<lambda>row. row_sku row \<in> completed) rows)) ?st1 st'"
      and bo: "buffer_ok fieldnames st'"
      and re: "remote st' = remote_after call completed (remote ?st1) rows"
      by blast
    have "progress out fieldnames ([] @ generated_rows call completed (remote ?st1) rows)
            (1 + length (filter (\<lambda>row. row_sku row \<in> completed) rows)) st st'"
      using progress_trans[OF progress_skip pr] .
    then show ?thesis
      using True run bo re by (simp add: loop_body_skip)
  next
    case False
    from loop_body_generate[OF f rok Cons.prems(2) False, of call out] obtain st1 where
      body: "loop_body call out fieldnames completed row st = (None, st1)"
      and p1: "progress out fieldnames
                 [annotate row (fst (generate_description call (remote st) row))] 0 st st1"
      and b1: "buffer_ok fieldnames st1"
      and r1: "remote st1 = snd (generate_description call (remote st) row)"
      by blast
    from Cons.IH[OF rest b1] obtain st' where
      run: "run_loop call out fieldnames completed rows st1 = (None, st')"
      and pr: "progress out fieldnames (generated_rows call completed (remote st1) rows)
               (length (filter (\<lambda>row. row_sku row \<in> completed) rows)) st1 st'"
      and bo: "buffer_ok fieldnames st'"
      and re: "remote st' = remote_after call completed (remote st1) rows"
      by blast
    have "progress out fieldnames
            ([annotate row (fst (generate_description call (remote st) row))]
             @ generated_rows call completed (remote st1) rows)
            (0 + length (filter (\<lambda>row. row_sku row \<in> completed) rows)) st st'"
      using progress_trans[OF p1 pr] .
    then show ?thesis
      using False body run bo re r1 by simp
  qed
qed

section \<open>Facts about the rows a run writes\<close>

lemma generated_rows_length:
  "length (generated_rows call completed w rows)
   = length (filter (\<lambda>row. row_sku row \<notin> completed) rows)"
  by (induction rows arbitrary: w) simp_all

lemma generated_rows_annotated:
  "list_all2 (\<lambda>row row'. \<exists>result. row' = annotate row result)
     (filter (\<lambda>row. row_sku row \<notin> completed) rows) (generated_rows call completed w rows)"
  by (induction rows arbitrary: w) auto

lemma record_field_row_record:
  "record_field fieldnames (row_record fieldnames row) k
   = (if k \<in> set fieldnames then Some (csv_cell (dict_get_default row k (PyStr []))) else None)"
  by (simp add: record_field_def row_record_def map_of_zip_map)

lemma annotate_status:
  "dict_get (annotate row (Inr d)) ''generation_status'' = Some (PyStr ''success'')"
  "dict_get (annotate row (Inl e)) ''generation_status'' = Some (PyStr (''error: '' @ raised_message e))"
  "dict_get (annotate row (Inr d)) ''new_description'' = Some (PyStr d)"
  "dict_get (annotate row (Inl e)) ''new_description'' = Some (PyStr [])"
  by (simp_all add: dict_get_set)


lemma dict_get_default_get: "dict_get_default d k v = (case dict_get d k of None \<Rightarrow> v | Some x \<Rightarrow> x)"
  by (simp add: dict_get_default_def dict_get_def)

lemma annotate_status_written:
  assumes "fields_ok fieldnames"
  shows "status_written (record_field fieldnames (row_record fieldnames (annotate row result))
           ''generation_status'')"
  using assms
  by (cases result)
     (simp_all add: record_field_row_record fields_ok_def dict_get_default_get annotate_status
        status_written_def del: annotate.simps)

lemma flush_buffer_ok:
  assumes "list_all (\<lambda>row. set (dict_keys row) \<subseteq> set fieldnames) (buffer st)"
  shows "\<exists>st'. flush_buffer out fieldnames st = (None, st')
           \<and> file_records (files st') out
             = file_records (files st) out @ map (row_record fieldnames) (buffer st)
           \<and> (\<forall>p. p \<noteq> out \<longrightarrow> files st' p = files st p)
           \<and> (buffer st = [] \<longrightarrow> files st' = files st)
           \<and> requests st' = requests st \<and> sleeps st' = sleeps st \<and> skipped st' = skipped st
           \<and> processed st' = processed st \<and> errors st' = errors st \<and> remote st' = remote st"
  by (cases "buffer st = []")
     (simp_all add: flush_buffer_def append_rows_ok[OF assms] file_records_def)

lemma written_prefix:
  assumes eq: "A @ B = F @ G" and len: "length B = length G mod n"
  shows "A = F @ take (length G div n * n) G"
proof -
  have "length A + length B = length F + length G"
    using eq by (metis length_append)
  then have la: "length A = length F + length G div n * n"
    using len by (metis add_diff_cancel_right' add.assoc div_mult_mod_eq)
  have "A = take (length A) (A @ B)" by simp
  also have "\<dots> = take (length A) (F @ G)" by (simp only: eq)
  also have "\<dots> = F @ take (length G div n * n) G" by (simp add: la)
  finally show ?thesis .
qed

section \<open>Facts about reading back what was written\<close>















section \<open>Facts about a whole run\<close>











lemma row_record_not_blank:
  assumes "fields_ok fieldnames"
  shows "row_record fieldnames row \<noteq> []"
  using assms by (auto simp: row_record_def fields_ok_def)

lemma read_back_rows:
  assumes "fields_ok fieldnames"
  shows "DictReader (fieldnames # map (row_record fieldnames) gen)
         = map (\<lambda>row. DictReader_row fieldnames (row_record fieldnames row)) gen"
  using row_record_not_blank[OF assms]
  by (simp add: DictReader_def filter_map comp_def)


section \<open>Facts about the spreadsheet import\<close>











section \<open>Claims\<close>






text \<open>
  C3. With the resume flag and no output file, the resume detector returns the empty
  set, and the run writes the generated row into a new file without any header row;
  the resume detector then reads that file as a header without data. Without the flag
  the same run writes the header first.
\<close>

theorem resume_without_output_writes_no_header:
  "sample_input ''out.csv'' = None
   \<and> load_completed_skus sample_input ''out.csv'' = Inr {}
   \<and> fst resumed_without_output = Finished
   \<and> files (snd resumed_without_output) ''out.csv''
     = Some [[''A1'', ''Mints'', ''Chewy mints.'', ''success'']]
   \<and> load_completed_skus (files (snd resumed_without_output)) ''out.csv'' = Inr {}
   \<and> files (snd (main sample_ok ''key'' sample_args sample_input ())) ''out.csv''
     = Some [[''Variant SKU'', ''Title'', ''new_description'', ''generation_status''],
             [''A1'', ''Mints'', ''Chewy mints.'', ''success'']]"
  by code_simp

text \<open>
  C4. In the loop the buffer is appended to the output file and cleared when it reaches
  SAVE_EVERY_N records. From an empty buffer, after any number of iterations over rows
  that raise nothing, n of them not skipped, the output file has gained exactly the
  first (n div SAVE_EVERY_N) * SAVE_EVERY_N generated rows, the buffer holds the
  remaining n mod SAVE_EVERY_N, strictly fewer than SAVE_EVERY_N, and the flush after
  the loop appends what the buffer holds, so that the file then holds every generated
  row.
\<close>

theorem checkpoint_every_n:
  assumes "fields_ok fieldnames" and "list_all (row_ok fieldnames) rows" and "buffer st = []"
  shows "\<exists>st'. run_loop call out fieldnames completed rows st = (None, st')
          \<and> file_records (files st') out
            = file_records (files st) out
              @ take (length (filter (\<lambda>row. row_sku row \<notin> completed) rows) div SAVE_EVERY_N * SAVE_EVERY_N)
                  (map (row_record fieldnames) (generated_rows call completed (remote st) rows))
          \<and> length (file_records (files st') out)
            = length (file_records (files st) out)
              + length (filter (\<lambda>row. row_sku row \<notin> completed) rows) div SAVE_EVERY_N * SAVE_EVERY_N
          \<and> length (buffer st') = length (filter (\<lambda>row. row_sku row \<notin> completed) rows) mod SAVE_EVERY_N
          \<and> length (buffer st') < SAVE_EVERY_N
          \<and> (\<exists>st''. flush_buffer out fieldnames st' = (None, st'')
                \<and> file_records (files st'') out
                  = file_records (files st) out
                    @ map (row_record fieldnames) (generated_rows call completed (remote st) rows))"
proof -
  let ?gen = "generated_rows call completed (remote st) rows"
  let ?n = "length (filter (\<lambda>row. row_sku row \<notin> completed) rows)"
  have b: "buffer_ok fieldnames st"
    using assms(3) SAVE_EVERY_N_pos by (simp add: buffer_ok_def)
  from run_loop_progress[OF assms(1,2) b, of call out completed] obtain st' where
    run: "run_loop call out fieldnames completed rows st = (None, st')"
    and pr: "progress out fieldnames ?gen (length (filter (\<lambda>row. row_sku row \<in> completed) rows)) st st'"
    and bo: "buffer_ok fieldnames st'"
    by blast
  have n: "length ?gen = ?n" by (rule generated_rows_length)
  have small: "length (buffer st') < SAVE_EVERY_N"
    using bo by (simp add: buffer_ok_def)
  have len: "length (buffer st') = ?n mod SAVE_EVERY_N"
    using pr small assms(3) by (simp add: progress_def n)
  have eq: "file_records (files st') out @ map (row_record fieldnames) (buffer st')
            = file_records (files st) out @ map (row_record fieldnames) ?gen"
    using pr assms(3) by (simp add: progress_def)
  have pre: "file_records (files st') out
        = file_records (files st) out @ take (?n div SAVE_EVERY_N * SAVE_EVERY_N) (map (row_record fieldnames) ?gen)"
    using written_prefix[OF eq, of SAVE_EVERY_N] len n by simp
  have cnt: "length (file_records (files st') out)
        = length (file_records (files st) out) + ?n div SAVE_EVERY_N * SAVE_EVERY_N"
  proof -
    have "?n div SAVE_EVERY_N * SAVE_EVERY_N \<le> ?n" by simp
    then show ?thesis by (simp add: pre n)
  qed
  have w: "list_all (\<lambda>row. set (dict_keys row) \<subseteq> set fieldnames) (buffer st')"
    using bo by (simp add: buffer_ok_def)
  from flush_buffer_ok[OF w, of out] obtain st'' where
    fl: "flush_buffer out fieldnames st' = (None, st'')"
    and ff: "file_records (files st'') out
             = file_records (files st') out @ map (row_record fieldnames) (buffer st')"
    by blast
  show ?thesis
    using run pre cnt len small fl ff eq by simp
qed

theorem checkpoint_every_n_witness:
  "\<exists>st'. run_loop sample_remote ''out.csv'' sample_fieldnames {''S3''} sample_rows sample_start = (None, st')
      \<and> length (file_records (files st') ''out.csv'') = 11
      \<and> length (buffer st') = 1"
proof -
  have 1: "fields_ok sample_fieldnames"
    by code_simp
  have 2: "list_all (row_ok sample_fieldnames) sample_rows"
    by code_simp
  have 3: "buffer sample_start = []"
    by code_simp
  have n: "length (filter (\<lambda>row. row_sku row \<notin> {''S3''}) sample_rows) = 11"
    by code_simp
  have f: "length (file_records (files sample_start) ''out.csv'') = 1"
    by code_simp
  from checkpoint_every_n[OF 1 2 3, of sample_remote "''out.csv''" "{''S3''}"]
  obtain st' where
    run: "run_loop sample_remote ''out.csv'' sample_fieldnames {''S3''} sample_rows sample_start = (None, st')"
    and cnt: "length (file_records (files st') ''out.csv'')
              = length (file_records (files sample_start) ''out.csv'')
                + length (filter (\<lambda>row. row_sku row \<notin> {''S3''}) sample_rows) div SAVE_EVERY_N * SAVE_EVERY_N"
    and len: "length (buffer st') = length (filter (\<lambda>row. row_sku row \<notin> {''S3''}) sample_rows) mod SAVE_EVERY_N"
    by blast
  show ?thesis
    using run cnt[unfolded n f] len[unfolded n] by (simp add: SAVE_EVERY_N_def)
qed

text \<open>
  C5. For every row that is not skipped and on which \<^verbatim>\<open>generate_description\<close> raises an
  exception \<open>e\<close>, the row appended to the buffer has generation_status equal to
  "error: " followed by \<^verbatim>\<open>str(e)\<close> and an empty new_description, so has the record written
  for it, and the iteration raises nothing: the loop goes on with the next row.
\<close>

theorem error_row_recorded:
  assumes f: "fields_ok fieldnames" and r: "row_ok fieldnames row" and b: "buffer_ok fieldnames st"
    and ns: "row_sku row \<notin> completed"
    and g: "generate_description call (remote st) row = (Inl e, w')"
  shows "\<exists>st'. loop_body call out fieldnames completed row st = (None, st')
          \<and> buffer (record_result row (Inl e) w' st) = buffer st @ [annotate row (Inl e)]
          \<and> dict_get (annotate row (Inl e)) ''generation_status''
              = Some (PyStr (''error: '' @ raised_message e))
          \<and> dict_get (annotate row (Inl e)) ''new_description'' = Some (PyStr [])
          \<and> file_records (files st') out @ map (row_record fieldnames) (buffer st')
              = file_records (files st) out @ map (row_record fieldnames) (buffer st)
                @ [row_record fieldnames (annotate row (Inl e))]
          \<and> record_field fieldnames (row_record fieldnames (annotate row (Inl e))) ''generation_status''
              = Some (''error: '' @ raised_message e)
          \<and> record_field fieldnames (row_record fieldnames (annotate row (Inl e))) ''new_description''
              = Some []
          \<and> run_loop call out fieldnames completed (row # rows) st
              = run_loop call out fieldnames completed rows st'"
proof -
  from loop_body_generate[OF f r b ns, of call out] obtain st' where
    body: "loop_body call out fieldnames completed row st = (None, st')"
    and pr: "progress out fieldnames [annotate row (fst (generate_description call (remote st) row))] 0 st st'"
    by blast
  have files: "file_records (files st') out @ map (row_record fieldnames) (buffer st')
              = file_records (files st) out @ map (row_record fieldnames) (buffer st)
                @ [row_record fieldnames (annotate row (Inl e))]"
    using pr by (simp add: progress_def g del: annotate.simps)
  have cells:
    "record_field fieldnames (row_record fieldnames (annotate row (Inl e))) ''generation_status''
       = Some (''error: '' @ raised_message e)"
    "record_field fieldnames (row_record fieldnames (annotate row (Inl e))) ''new_description''
       = Some []"
    using f
    by (simp_all add: record_field_row_record fields_ok_def dict_get_default_get annotate_status
        del: annotate.simps)
  show ?thesis
    using body files cells
    by (simp add: record_result_fields annotate_status del: annotate.simps)
qed

theorem error_row_recorded_witness:
  "\<exists>st'. loop_body sample_failing ''out.csv'' sample_fieldnames {}
            [(''Variant SKU'', PyStr ''A1''), (''Title'', PyStr ''Mints'')]
            (initial_state (\<lambda>p. None) ()) = (None, st')
      \<and> file_records (files st') ''out.csv'' @ map (row_record sample_fieldnames) (buffer st')
          = [[''A1'', ''Mints'', [], ''error: overloaded'']]
      \<and> run_loop sample_failing ''out.csv'' sample_fieldnames {}
            [[(''Variant SKU'', PyStr ''A1''), (''Title'', PyStr ''Mints'')],
             [(''Variant SKU'', PyStr ''B2''), (''Title'', PyStr ''Drops'')]]
            (initial_state (\<lambda>p. None) ())
          = run_loop sample_failing ''out.csv'' sample_fieldnames {}
              [[(''Variant SKU'', PyStr ''B2''), (''Title'', PyStr ''Drops'')]] st'"
proof -
  let ?row = "[(''Variant SKU'', PyStr ''A1''), (''Title'', PyStr ''Mints'')]"
  let ?st = "initial_state (\<lambda>p. None) () :: unit run_state"
  have 1: "fields_ok sample_fieldnames" by code_simp
  have 2: "row_ok sample_fieldnames ?row" by code_simp
  have 3: "buffer_ok sample_fieldnames ?st" by code_simp
  have 4: "row_sku ?row \<notin> {}" by simp
  have 5: "generate_description sample_failing (remote ?st) ?row = (Inl (APIError ''overloaded''), ())"
    by (simp add: generate_description_def sample_failing_def Let_def)
  have 6: "file_records (files ?st) ''out.csv'' = []" "buffer ?st = []"
    by (simp_all add: initial_state_def file_records_def)
  have 7: "row_record sample_fieldnames (annotate ?row (Inl (APIError ''overloaded'')))
           = [''A1'', ''Mints'', [], ''error: overloaded'']"
    by code_simp
  from error_row_recorded[OF 1 2 3 4 5, of "''out.csv''"
      "[[(''Variant SKU'', PyStr ''B2''), (''Title'', PyStr ''Drops'')]]"]
  obtain st' where
    body: "loop_body sample_failing ''out.csv'' sample_fieldnames {} ?row ?st = (None, st')"
    and fl: "file_records (files st') ''out.csv'' @ map (row_record sample_fieldnames) (buffer st')
              = file_records (files ?st) ''out.csv'' @ map (row_record sample_fieldnames) (buffer ?st)
                @ [row_record sample_fieldnames (annotate ?row (Inl (APIError ''overloaded'')))]"
    and cont: "run_loop sample_failing ''out.csv'' sample_fieldnames {}
                 (?row # [[(''Variant SKU'', PyStr ''B2''), (''Title'', PyStr ''Drops'')]]) ?st
               = run_loop sample_failing ''out.csv'' sample_fieldnames {}
                   [[(''Variant SKU'', PyStr ''B2''), (''Title'', PyStr ''Drops'')]] st'"
    by blast
  have "file_records (files st') ''out.csv'' @ map (row_record sample_fieldnames) (buffer st')
        = [[''A1'', ''Mints'', [], ''error: overloaded'']]"
    using fl[unfolded 6 7] by simp
  then show ?thesis using body cont by blast
qed






text \<open>
  C8, as the claim states it, fails on the record without any field: the prompt builder
  still emits the title line, which \<open>claimed_prompt\<close> skips.
\<close>

theorem build_user_prompt_title_counterexample:
  "build_user_prompt [] \<noteq> claimed_prompt []"
  by (simp add: build_user_prompt_def claimed_prompt_def labeled_def dict_get_def
      dict_get_default_def Let_def py_str_nat.simps present_lines_def field_text_def
      labeled_fields_def mini_line_def mini_keys_def instruction_suffix_def newline_def)

text \<open>
  C8, amended. For every input record, the prompt builder emits the title line always
  (with an empty title when the field is absent or empty), then the labeled lines in
  the fixed order vendor/brand, existing description, sizing, certifications,
  nutritional claims, occasion, skipping each of these that is empty or absent; then
  the up-to-four mini-description fragments joined by the separator when any is
  present, and finally the instruction suffix. Two records that agree on the fields the
  prompt reads get the same prompt.
\<close>

theorem build_user_prompt_lines:
  "build_user_prompt row = prompt_with_title row
   \<and> (\<forall>row'. (\<forall>k \<in> set prompt_fields. dict_get row' k = dict_get row k)
              \<longrightarrow> build_user_prompt row' = build_user_prompt row)"
  using prompt_with_title_cong by (simp add: build_user_prompt_eq)

theorem build_user_prompt_lines_witness:
  "build_user_prompt [(''Title'', PyStr ''Mints''), (''Vendor'', PyStr []),
                      (''occasion'', PyStr ''Easter''), (''description_mini_02'', PyStr ''Tin'')]
   = ''Product title: Mints'' @ newline @ ''Occasion: Easter'' @ newline
     @ ''Additional details: Tin'' @ newline @ instruction_suffix
   \<and> build_user_prompt [(''Image Src'', PyStr ''u''), (''Title'', PyStr ''Mints'')]
     = build_user_prompt [(''Title'', PyStr ''Mints'')]"
proof -
  let ?row = "[(''Title'', PyStr ''Mints''), (''Vendor'', PyStr []),
               (''occasion'', PyStr ''Easter''), (''description_mini_02'', PyStr ''Tin'')]"
  have 1: "prompt_with_title ?row
      = ''Product title: Mints'' @ newline @ ''Occasion: Easter'' @ newline
        @ ''Additional details: Tin'' @ newline @ instruction_suffix"
    by (simp add: prompt_with_title_def present_lines_def labeled_fields_def mini_line_def
        mini_keys_def field_text_def dict_get_def dict_get_default_def)
  have 2: "\<forall>k \<in> set prompt_fields.
      dict_get [(''Image Src'', PyStr ''u''), (''Title'', PyStr ''Mints'')] k
      = dict_get [(''Title'', PyStr ''Mints'')] k"
    by (simp add: prompt_fields_def labeled_fields_def mini_keys_def dict_get_def)
  from build_user_prompt_lines[of ?row] have "build_user_prompt ?row = prompt_with_title ?row"
    by simp
  moreover from build_user_prompt_lines[of "[(''Title'', PyStr ''Mints'')]"] 2
  have "build_user_prompt [(''Image Src'', PyStr ''u''), (''Title'', PyStr ''Mints'')]
        = build_user_prompt [(''Title'', PyStr ''Mints'')]"
    by blast
  ultimately show ?thesis using 1 by simp
qed




text \<open>
  C10. A run of the loop and the flush over rows that raise nothing writes one record for
  every row whose key is not in the completed set, the row with the two assignments of
  the try statement, and none for a row whose key is in the set; every record written
  has a generation_status that is "success" or begins with "error: "; the remote calls
  and the sleeps are as many as the records written, and the skipped rows are counted.
\<close>

theorem skipped_rows_not_written:
  assumes "fields_ok fieldnames" and "list_all (row_ok fieldnames) rows" and "buffer st = []"
  shows "\<exists>st' st'' gen.
           run_loop call out fieldnames completed rows st = (None, st')
         \<and> flush_buffer out fieldnames st' = (None, st'')
         \<and> file_records (files st'') out = file_records (files st) out @ map (row_record fieldnames) gen
         \<and> list_all2 (\<lambda>row row'. \<exists>result. row' = annotate row result)
              (filter (\<lambda>row. row_sku row \<notin> completed) rows) gen
         \<and> (\<forall>record \<in> set (map (row_record fieldnames) gen).
               status_written (record_field fieldnames record ''generation_status''))
         \<and> requests st'' = requests st + length gen
         \<and> sleeps st'' = sleeps st + length gen
         \<and> skipped st'' = skipped st + length (filter (\<lambda>row. row_sku row \<in> completed) rows)"
proof -
  let ?gen = "generated_rows call completed (remote st) rows"
  have b: "buffer_ok fieldnames st"
    using assms(3) SAVE_EVERY_N_pos by (simp add: buffer_ok_def)
  from run_loop_progress[OF assms(1,2) b, of call out completed] obtain st' where
    run: "run_loop call out fieldnames completed rows st = (None, st')"
    and pr: "progress out fieldnames ?gen (length (filter (\<lambda>row. row_sku row \<in> completed) rows)) st st'"
    and bo: "buffer_ok fieldnames st'"
    by blast
  have w: "list_all (\<lambda>row. set (dict_keys row) \<subseteq> set fieldnames) (buffer st')"
    using bo by (simp add: buffer_ok_def)
  from flush_buffer_ok[OF w, of out] obtain st'' where
    fl: "flush_buffer out fieldnames st' = (None, st'')"
    and ff: "file_records (files st'') out
             = file_records (files st') out @ map (row_record fieldnames) (buffer st')"
    and cs: "requests st'' = requests st'" "sleeps st'' = sleeps st'" "skipped st'' = skipped st'"
    by blast
  have fileq: "file_records (files st'') out = file_records (files st) out @ map (row_record fieldnames) ?gen"
    using pr assms(3) ff by (simp add: progress_def)
  have ann: "list_all2 (\<lambda>row row'. \<exists>result. row' = annotate row result)
              (filter (\<lambda>row. row_sku row \<notin> completed) rows) ?gen"
    by (rule generated_rows_annotated)
  have st: "\<forall>record \<in> set (map (row_record fieldnames) ?gen).
               status_written (record_field fieldnames record ''generation_status'')"
  proof
    fix written assume "written \<in> set (map (row_record fieldnames) ?gen)"
    then obtain row' where r': "row' \<in> set ?gen" and rec: "written = row_record fieldnames row'"
      by auto
    from r' ann obtain row result where "row' = annotate row result"
      by (auto simp: list_all2_conv_all_nth in_set_conv_nth)
    then show "status_written (record_field fieldnames written ''generation_status'')"
      using annotate_status_written[OF assms(1)] rec by simp
  qed
  have cnt: "requests st'' = requests st + length ?gen" "sleeps st'' = sleeps st + length ?gen"
    "skipped st'' = skipped st + length (filter (\<lambda>row. row_sku row \<in> completed) rows)"
    using pr cs by (simp_all add: progress_def)
  show ?thesis
    using run fl fileq ann st cnt by blast
qed

theorem skipped_rows_not_written_witness:
  "\<exists>st' st''.
      run_loop sample_remote ''out.csv'' sample_fieldnames {''S3''} sample_rows sample_start = (None, st')
    \<and> flush_buffer ''out.csv'' sample_fieldnames st' = (None, st'')
    \<and> length (file_records (files st'') ''out.csv'') = 12
    \<and> requests st'' = 11 \<and> sleeps st'' = 11 \<and> skipped st'' = 1"
proof -
  have 1: "fields_ok sample_fieldnames"
    by code_simp
  have 2: "list_all (row_ok sample_fieldnames) sample_rows"
    by code_simp
  have 3: "buffer sample_start = []"
    by code_simp
  have n: "length (filter (\<lambda>row. row_sku row \<notin> {''S3''}) sample_rows) = 11"
    by code_simp
  have k: "length (filter (\<lambda>row. row_sku row \<in> {''S3''}) sample_rows) = 1"
    by code_simp
  have f: "length (file_records (files sample_start) ''out.csv'') = 1"
    by code_simp
  have z: "requests sample_start = 0" "sleeps sample_start = 0" "skipped sample_start = 0"
    by (simp_all add: sample_start_def initial_state_def)
  from skipped_rows_not_written[OF 1 2 3, of sample_remote "''out.csv''" "{''S3''}"]
  obtain st' st'' gen where
    run: "run_loop sample_remote ''out.csv'' sample_fieldnames {''S3''} sample_rows sample_start = (None, st')"
    and fl: "flush_buffer ''out.csv'' sample_fieldnames st' = (None, st'')"
    and fr: "file_records (files st'') ''out.csv''
             = file_records (files sample_start) ''out.csv'' @ map (row_record sample_fieldnames) gen"
    and ann: "list_all2 (\<lambda>row row'. \<exists>result. row' = annotate row result)
                (filter (\<lambda>row. row_sku row \<notin> {''S3''}) sample_rows) gen"
    and cnt: "requests st'' = requests sample_start + length gen"
      "sleeps st'' = sleeps sample_start + length gen"
      "skipped st'' = skipped sample_start + length (filter (\<lambda>row. row_sku row \<in> {''S3''}) sample_rows)"
    by blast
  have g: "length gen = 11"
    using list_all2_lengthD[OF ann] n by simp
  have "length (file_records (files st'') ''out.csv'') = 12"
    using f g by (simp add: fr)
  then show ?thesis
    using run fl cnt[unfolded k z g] by simp
qed

end
